theory Spec2Isabelle
  imports Main
begin

section \<open>The tooltip (class ToolTip and create_tooltip of tkgui.py)\<close>

text \<open>
  The annotation window that \<open>showtip\<close> creates: a \<open>Toplevel\<close> placed by
  \<open>wm_geometry\<close> at a screen position, holding one label with the text the tooltip had
  when the window was made.
\<close>

record tipwin =
  win_text :: string
  win_x :: int
  win_y :: int

text \<open>
  The fields of \<open>ToolTip\<close> that its methods read or write: \<open>tipwindow\<close>, \<open>event\<close>
  (the handle \<open>widget.after\<close> returned, or \<open>None\<close>), \<open>text\<close> and \<open>active\<close>. The
  constructor also sets \<open>id\<close>, \<open>x\<close> and \<open>y\<close>, which nothing reads afterwards.
\<close>

record tooltip =
  tt_tipwindow :: "tipwin option"
  tt_event :: "nat option"
  tt_text :: string
  tt_active :: bool

text \<open>
  One tooltip together with what it touches of Tk: the callbacks that \<open>widget.after\<close> has
  scheduled for it and that have neither run nor been cancelled (oldest first), the next
  fresh callback handle, the pointer position that \<open>winfo_pointerx\<close> and
  \<open>winfo_pointery\<close> report, and counters of the windows created and destroyed so far.
\<close>

record hover =
  tip :: tooltip
  timers :: "nat list"
  next_timer :: nat
  pointer :: "int \<times> int"
  created :: nat
  destroyed :: nat

definition showtip :: "hover \<Rightarrow> hover" where
  "showtip h =
     (let t = (tip h)\<lparr>tt_active := True\<rparr> in
      if tt_tipwindow t \<noteq> None \<or> tt_text t = [] then h\<lparr>tip := t\<rparr>
      else
        let x = fst (pointer h) + 16;
            y = snd (pointer h) + 16
        in h\<lparr>tip := t\<lparr>tt_tipwindow := Some \<lparr>win_text = tt_text t, win_x = x, win_y = y\<rparr>\<rparr>,
              created := Suc (created h)\<rparr>)"

definition hidetip :: "hover \<Rightarrow> hover" where
  "hidetip h =
     (let tw = tt_tipwindow (tip h);
          h1 = h\<lparr>tip := (tip h)\<lparr>tt_tipwindow := None, tt_active := False\<rparr>\<rparr>
      in case tw of None \<Rightarrow> h1 | Some w \<Rightarrow> h1\<lparr>destroyed := Suc (destroyed h1)\<rparr>)"

definition settext :: "string \<Rightarrow> hover \<Rightarrow> hover" where
  "settext txt h =
     (if txt = tt_text (tip h) then h
      else
        let h1 = h\<lparr>tip := (tip h)\<lparr>tt_text := txt\<rparr>\<rparr>
        in if tt_active (tip h1) then showtip (hidetip h1) else h1)"

text \<open>
  \<open>widget.after(_TOOLTIP_DELAY, tooltip.showtip)\<close> queues a callback and returns its
  handle; \<open>widget.after_cancel(id)\<close> removes the callback with that handle from the queue
  and does nothing when it is no longer there. A handle is a non-empty string
  (\<open>after#n\<close>), so it is true in \<open>if tooltip.event:\<close>.
\<close>

definition after :: "hover \<Rightarrow> nat \<times> hover" where
  "after h = (next_timer h, h\<lparr>timers := timers h @ [next_timer h], next_timer := Suc (next_timer h)\<rparr>)"

definition after_cancel :: "nat \<Rightarrow> hover \<Rightarrow> hover" where
  "after_cancel i h = h\<lparr>timers := filter (\<lambda>j. j \<noteq> i) (timers h)\<rparr>"

definition enter :: "hover \<Rightarrow> hover" where
  "enter h =
     (let h1 = (case tt_event (tip h) of None \<Rightarrow> h | Some e \<Rightarrow> after_cancel e h);
          (i, h2) = after h1
      in h2\<lparr>tip := (tip h2)\<lparr>tt_event := Some i\<rparr>\<rparr>)"

definition leave :: "hover \<Rightarrow> hover" where
  "leave h =
     (let h1 = (case tt_event (tip h) of None \<Rightarrow> h
                | Some e \<Rightarrow> (after_cancel e h)\<lparr>tip := (tip h)\<lparr>tt_event := None\<rparr>\<rparr>)
      in hidetip h1)"

text \<open>
  The delay runs out: Tk takes the oldest scheduled callback off the queue and calls it,
  and the callback is \<open>tooltip.showtip\<close>. With nothing scheduled nothing happens.
\<close>

definition timer_fires :: "hover \<Rightarrow> hover" where
  "timer_fires h = (case timers h of [] \<Rightarrow> h | i # rest \<Rightarrow> showtip (h\<lparr>timers := rest\<rparr>))"

definition create_tooltip :: "string \<Rightarrow> int \<times> int \<Rightarrow> hover" where
  "create_tooltip txt p =
     \<lparr>tip = \<lparr>tt_tipwindow = None, tt_event = None, tt_text = txt, tt_active = False\<rparr>,
      timers = [], next_timer = 0, pointer = p, created = 0, destroyed = 0\<rparr>"

text \<open>What can happen to a tooltip: the two bound events, the delay running out, the
  pointer moving, and a caller setting the text.\<close>

datatype event = Enter | Leave | TimerFires | Motion int int | SetText string

fun handle :: "event \<Rightarrow> hover \<Rightarrow> hover" where
  "handle Enter h = enter h"
| "handle Leave h = leave h"
| "handle TimerFires h = timer_fires h"
| "handle (Motion x y) h = h\<lparr>pointer := (x, y)\<rparr>"
| "handle (SetText txt) h = settext txt h"

fun run :: "event list \<Rightarrow> hover \<Rightarrow> hover" where
  "run [] h = h"
| "run (e # es) h = run es (handle e h)"

text \<open>Every scheduled callback is the one whose handle \<open>tooltip.event\<close> holds.\<close>

definition one_timer :: "hover \<Rightarrow> bool" where
  "one_timer h = (timers h = [] \<or> (\<exists>e. timers h = [e] \<and> tt_event (tip h) = Some e))"

section \<open>Python values and exceptions\<close>

text \<open>
  The values a setting, a projection result or a field of a hack can be, as far as the
  code tells them apart: \<open>None\<close>, a boolean, an integer, a string.
\<close>

datatype pyvalue = PNone | PBool bool | PInt int | PStr string

datatype exn = KeyError | TypeError | TclError | IndexError | AttributeError

text \<open>Truth of a value in \<open>if\<close> and in a conditional expression.\<close>

fun truthy :: "pyvalue \<Rightarrow> bool" where
  "truthy PNone = False"
| "truthy (PBool b) = b"
| "truthy (PInt n) = (n \<noteq> 0)"
| "truthy (PStr s) = (s \<noteq> [])"

text \<open>\<open>s.split(sep)\<close> for a one-character separator: the fields between the separators,
  never an empty list.\<close>

fun py_split :: "char \<Rightarrow> string \<Rightarrow> string list" where
  "py_split c [] = [[]]"
| "py_split c (x # xs) =
     (if x = c then [] # py_split c xs
      else (case py_split c xs of [] \<Rightarrow> [[x]] | f # fs \<Rightarrow> (x # f) # fs))"

text \<open>Decimal digits of a number, as \<open>str\<close> and Tcl print an integer.\<close>

fun str_nat :: "nat \<Rightarrow> string" where
  "str_nat n =
     (if n < 10 then [''0123456789'' ! n]
      else str_nat (n div 10) @ [''0123456789'' ! (n mod 10)])"

declare str_nat.simps [simp del]

definition str_int :: "int \<Rightarrow> string" where
  "str_int i = (if i < 0 then CHR ''-'' # str_nat (nat (- i)) else str_nat (nat i))"

section \<open>Controls and the registry (TkGui.controls)\<close>

text \<open>
  What the interface deals with outside itself, as given: the builtin \<open>float\<close>
  (\<open>float_ok s\<close>: whether \<open>float(s)\<close> returns rather than raising \<open>ValueError\<close>), and the
  controller \<open>self.lnp\<close>, whose state is a value of type \<open>'l\<close>:
  \<open>getattr_settings l key\<close> is what \<open>getattr(self.lnp.settings, key)\<close> does in state
  \<open>l\<close> (return a value or raise), and \<open>call_set_option key value l\<close> is what
  \<open>self.lnp.set_option(key, value)\<close> does there (raise, or return with the controller in
  a new state).
\<close>

record 'l outside =
  float_ok :: "string \<Rightarrow> bool"
  getattr_settings :: "'l \<Rightarrow> string \<Rightarrow> exn + pyvalue"
  call_set_option :: "string \<Rightarrow> string \<Rightarrow> 'l \<Rightarrow> exn + 'l"

text \<open>
  \<open>change_entry\<close> (lines 1085 to 1096), the write trace of the variables of the three
  entries. \<open>var\<close> is what \<open>var.get()\<close> returns, the content of the entry;
  \<open>lnp_set_option\<close> is the controller's \<open>self.lnp.set_option\<close>, acting on the controller's
  state, and may raise.
\<close>

definition change_entry ::
  "(string \<Rightarrow> string \<Rightarrow> 'lnp \<Rightarrow> exn + 'lnp) \<Rightarrow> string \<Rightarrow> string \<Rightarrow> 'lnp \<Rightarrow> exn + 'lnp"
where
  "change_entry lnp_set_option key var lnp =
     (if var \<noteq> [] then lnp_set_option key var lnp else Inr lnp)"

text \<open>
  A control as \<open>update_displays\<close> sees it: whether it is an \<open>Entry\<close>
  (\<open>isinstance(control, Entry)\<close>); whether it was created with \<open>validate='key'\<close> and
  \<open>validatecommand=self.vcmd\<close>; the key that the write trace on its \<open>textvariable\<close>
  hands to \<open>change_entry\<close>, if it has such a trace (the three entries of the Advanced
  tab have both, lines 913 to 952); and what it shows: the \<open>text\<close> option of a button or
  label, the content of an entry.
\<close>

record control =
  is_entry :: bool
  validate_key :: bool
  trace_key :: "string option"
  shown :: string

text \<open>
  \<open>validate_number\<close> (lines 86 to 104). The argument \<open>fl\<close> stands for the builtin
  \<open>float\<close>: whether \<open>float(s)\<close> returns rather than raising \<open>ValueError\<close>.
\<close>

definition validate_number :: "(string \<Rightarrow> bool) \<Rightarrow> string \<Rightarrow> bool" where
  "validate_number fl value_if_allowed =
     (if value_if_allowed = [] then True
      else if fl value_if_allowed then True else False)"

text \<open>
  The write trace of an entry's variable, run by Tk once the variable holds the entry's
  new content: \<open>change_entry\<close> with the trace's key and that content. Tkinter reports an
  exception of a callback and drops it, so the edit stands and the controller is as the
  failed call left it.
\<close>

definition var_trace :: "'l outside \<Rightarrow> control \<Rightarrow> 'l \<Rightarrow> 'l" where
  "var_trace out c lnp =
     (case trace_key c of
        None \<Rightarrow> lnp
      | Some key \<Rightarrow>
          (case change_entry (call_set_option out) key (shown c) lnp of
             Inl e \<Rightarrow> lnp
           | Inr lnp' \<Rightarrow> lnp'))"

text \<open>
  An edit of an entry that would leave it with content \<open>new\<close>. An edit that deletes or
  inserts nothing is no edit. With key validation on, Tk asks the validation command
  about the prospective content and drops the edit when the answer is false. Otherwise
  the content is replaced, the variable follows and its trace runs. \<open>delete(0, END)\<close> is
  the edit to the empty content, \<open>insert(0, s)\<close> the edit that puts \<open>s\<close> in front of
  the content.
\<close>

definition entry_edit :: "'l outside \<Rightarrow> string \<Rightarrow> control \<times> 'l \<Rightarrow> control \<times> 'l" where
  "entry_edit out new cl =
     (case cl of (c, lnp) \<Rightarrow>
        if new = shown c then (c, lnp)
        else if validate_key c \<and> \<not> validate_number (float_ok out) new then (c, lnp)
        else (c\<lparr>shown := new\<rparr>, var_trace out (c\<lparr>shown := new\<rparr>) lnp))"

definition entry_delete_all :: "'l outside \<Rightarrow> control \<times> 'l \<Rightarrow> control \<times> 'l" where
  "entry_delete_all out cl = entry_edit out [] cl"

text \<open>
  How Tkinter passes the argument of \<open>insert\<close> to Tcl: a string as it is, an integer in
  decimal, a boolean as 1 or 0; at \<open>None\<close> the argument list is cut off, and the widget
  command, now short of an argument, fails with \<open>TclError\<close>.
\<close>

fun tk_arg :: "pyvalue \<Rightarrow> string option" where
  "tk_arg (PStr s) = Some s"
| "tk_arg (PInt i) = Some (str_int i)"
| "tk_arg (PBool b) = Some (if b then ''1'' else ''0'')"
| "tk_arg PNone = None"

definition entry_insert ::
  "'l outside \<Rightarrow> pyvalue \<Rightarrow> control \<times> 'l \<Rightarrow> (control \<times> 'l) \<times> exn option" where
  "entry_insert out v cl =
     (case tk_arg v of
        None \<Rightarrow> (cl, Some TclError)
      | Some s \<Rightarrow> (entry_edit out (s @ shown (fst cl)) cl, None))"

text \<open>
  The last statement of the loop body of \<open>update_displays\<close>, on the control and the
  controller: an entry is emptied and the value inserted; any other control gets the
  part of its text before the first colon, then a colon and a space, then the value, and
  \<open>str + value\<close> raises \<open>TypeError\<close> unless the value is a string.
\<close>

definition set_control ::
  "'l outside \<Rightarrow> pyvalue \<Rightarrow> control \<times> 'l \<Rightarrow> (control \<times> 'l) \<times> exn option" where
  "set_control out v cl =
     (case cl of (c, lnp) \<Rightarrow>
        if is_entry c then entry_insert out v (entry_delete_all out (c, lnp))
        else
          (case py_split CHR '':'' (shown c) of
             [] \<Rightarrow> ((c, lnp), Some IndexError)
           | f # fs \<Rightarrow>
               (case v of
                  PStr s \<Rightarrow> ((c\<lparr>shown := f @ '': '' @ s\<rparr>, lnp), None)
                | _ \<Rightarrow> ((c, lnp), Some TypeError))))"

text \<open>
  What \<open>self.controls\<close> holds under a key: a control, or a pair of a control and a
  function of the setting's value (lines 744 and 1041). Controls are objects, and two
  keys may hold the same one: a binding names its control by its identity, and the
  controls themselves live in a store.
\<close>

datatype binding = Plain nat | WithFunc nat "pyvalue \<Rightarrow> exn + pyvalue"

fun target :: "binding \<Rightarrow> nat" where
  "target (Plain c) = c"
| "target (WithFunc c f) = c"

type_synonym registry = "(string \<times> binding) list"

type_synonym store = "nat \<Rightarrow> control"

text \<open>
  \<open>self.controls[key] = b\<close>, the only way a binding is registered (line 588 and the
  like): a dict assignment, which replaces the value of a key that is present and adds
  the key otherwise. The registry is the list of the dict's items in the order in which
  \<open>keys()\<close> gives the keys, an order the language fixes only from Python 3.7 on (there a
  new key comes last, as here); what is proved of \<open>update_displays\<close> holds for every
  order, and what is proved of \<open>register\<close> does not depend on where a new key lands.
\<close>

fun register :: "string \<Rightarrow> binding \<Rightarrow> registry \<Rightarrow> registry" where
  "register key b [] = [(key, b)]"
| "register key b ((k, b') # r) =
     (if k = key then (key, b) # r else (k, b') # register key b r)"

text \<open>
  One pass of the loop body of \<open>update_displays\<close> (lines 1288 to 1304) for \<open>key\<close>, on
  the controls and the controller. The setting is read from the controller as it is when
  the pass begins. Only \<open>KeyError\<close> is caught. An exception leaves the pass, and the
  loop, with the controls and the controller as they are at that point.
\<close>

definition write_control ::
  "'l outside \<Rightarrow> nat \<Rightarrow> pyvalue \<Rightarrow> store \<times> 'l \<Rightarrow> (store \<times> 'l) \<times> exn option" where
  "write_control out c v sl =
     (case sl of (st, lnp) \<Rightarrow>
        (case set_control out v (st c, lnp) of
           ((c', lnp'), e) \<Rightarrow> ((st(c := c'), lnp'), e)))"

definition update_display ::
  "'l outside \<Rightarrow> registry \<Rightarrow> string \<Rightarrow> store \<times> 'l \<Rightarrow> (store \<times> 'l) \<times> exn option"
where
  "update_display out controls key sl =
     (case (case getattr_settings out (snd sl) key of
              Inl e \<Rightarrow> (if e = KeyError then Inr PNone else Inl e)
            | Inr v \<Rightarrow> Inr v) of
        Inl e \<Rightarrow> (sl, Some e)
      | Inr v \<Rightarrow>
          (case map_of controls key of
             None \<Rightarrow> (sl, Some KeyError)
           | Some (Plain c) \<Rightarrow> write_control out c v sl
           | Some (WithFunc c f) \<Rightarrow>
               (case f v of
                  Inl e \<Rightarrow> (sl, Some e)
                | Inr v' \<Rightarrow> write_control out c v' sl)))"

fun update_loop ::
  "'l outside \<Rightarrow> registry \<Rightarrow> string list \<Rightarrow> store \<times> 'l \<Rightarrow> (store \<times> 'l) \<times> exn option"
where
  "update_loop out controls [] sl = (sl, None)"
| "update_loop out controls (key # keys) sl =
     (case update_display out controls key sl of
        (sl', Some e) \<Rightarrow> (sl', Some e)
      | (sl', None) \<Rightarrow> update_loop out controls keys sl')"

definition update_displays ::
  "'l outside \<Rightarrow> registry \<Rightarrow> store \<times> 'l \<Rightarrow> (store \<times> 'l) \<times> exn option"
where
  "update_displays out controls sl = update_loop out controls (map fst controls) sl"

text \<open>
  What the controller returned when \<open>update_displays\<close>, going through \<open>keys\<close> from the
  state \<open>sl\<close>, asked it for \<open>key\<close>: the lookup is made when the pass of \<open>key\<close> begins,
  after the passes before it have written what they write. \<open>None\<close> when the loop does
  not get to \<open>key\<close>. \<open>answers\<close> lists this for every registered key.
\<close>

fun looked_up ::
  "'l outside \<Rightarrow> registry \<Rightarrow> string \<Rightarrow> string list \<Rightarrow> store \<times> 'l \<Rightarrow> (exn + pyvalue) option"
where
  "looked_up out controls key [] sl = None"
| "looked_up out controls key (k # keys) sl =
     (if k = key then Some (getattr_settings out (snd sl) key)
      else
        (case update_display out controls k sl of
           (sl', Some e) \<Rightarrow> None
         | (sl', None) \<Rightarrow> looked_up out controls key keys sl'))"

definition answers :: "'l outside \<Rightarrow> registry \<Rightarrow> store \<times> 'l \<Rightarrow> (exn + pyvalue) option list" where
  "answers out controls sl =
     map (\<lambda>key. looked_up out controls key (map fst controls) sl) (map fst controls)"

text \<open>
  Notions for the proofs. \<open>pass_value r\<close> is what a pass makes of the controller's
  answer \<open>r\<close>: which control it writes and with what value, or the exception it raises
  before writing. \<open>frame_of\<close> is what a pass leaves alone in a control: its kind, its
  validation and trace, and for a control that is not an entry the part of its text
  before the first colon. \<open>other_targets\<close> lists the controls of the keys other than
  \<open>key\<close>.
\<close>

definition pass_value :: "exn + pyvalue \<Rightarrow> registry \<Rightarrow> string \<Rightarrow> exn + nat \<times> pyvalue" where
  "pass_value r controls key =
     (case r of
        Inl e \<Rightarrow>
          (if e = KeyError then
             (case map_of controls key of
                None \<Rightarrow> Inl KeyError
              | Some (Plain c) \<Rightarrow> Inr (c, PNone)
              | Some (WithFunc c f) \<Rightarrow> (case f PNone of Inl e' \<Rightarrow> Inl e' | Inr v' \<Rightarrow> Inr (c, v')))
           else Inl e)
      | Inr v \<Rightarrow>
          (case map_of controls key of
             None \<Rightarrow> Inl KeyError
           | Some (Plain c) \<Rightarrow> Inr (c, v)
           | Some (WithFunc c f) \<Rightarrow> (case f v of Inl e' \<Rightarrow> Inl e' | Inr v' \<Rightarrow> Inr (c, v'))))"


definition other_targets :: "string \<Rightarrow> registry \<Rightarrow> nat list" where
  "other_targets key controls =
     map (\<lambda>kb. target (snd kb)) (filter (\<lambda>kb. fst kb \<noteq> key) controls)"

text \<open>
  For the examples: a button or label with a given text; an entry with key validation
  and a write trace for a key; a controller that keeps the settings as a list of keys
  and values, newest first, raises \<open>KeyError\<close> for a key it does not have and stores
  what it is asked to store; and one that differs in that it stores 255, the greatest
  volume, when asked to store 300 as the volume. In both, \<open>float\<close> is taken to accept
  the strings of decimal digits, which is all the examples ask of it.
\<close>

abbreviation button :: "string \<Rightarrow> control" where
  "button t \<equiv> \<lparr>is_entry = False, validate_key = False, trace_key = None, shown = t\<rparr>"

abbreviation number_entry :: "string \<Rightarrow> string \<Rightarrow> control" where
  "number_entry key t \<equiv> \<lparr>is_entry = True, validate_key = True, trace_key = Some key, shown = t\<rparr>"

definition stored :: "(string \<times> pyvalue) list \<Rightarrow> string \<Rightarrow> exn + pyvalue" where
  "stored l key = (case map_of l key of None \<Rightarrow> Inl KeyError | Some v \<Rightarrow> Inr v)"

definition keeping :: "(string \<times> pyvalue) list outside" where
  "keeping =
     \<lparr>float_ok = (\<lambda>s. list_all (\<lambda>x. x \<in> set ''0123456789'') s),
      getattr_settings = stored,
      call_set_option = (\<lambda>key v l. Inr ((key, PStr v) # l))\<rparr>"

definition capping :: "(string \<times> pyvalue) list outside" where
  "capping =
     \<lparr>float_ok = (\<lambda>s. list_all (\<lambda>x. x \<in> set ''0123456789'') s),
      getattr_settings = stored,
      call_set_option =
        (\<lambda>key v l. Inr ((key, PStr (if key = ''volume'' \<and> v = ''300'' then ''255'' else v)) # l))\<rparr>"

section \<open>The list displays (update_autorun_list, update_hack_list)\<close>

text \<open>
  A row of a \<open>Treeview\<close> with two columns, and the tree itself: its top-level items in
  display order, each under the item id Tk gave it, and the next unused id. The code adds
  rows under the root only.
\<close>

record row =
  row_text :: string
  row_values :: "string \<times> string"

record treeview =
  tv_items :: "(nat \<times> row) list"
  tv_next :: nat

definition get_children :: "treeview \<Rightarrow> nat list" where
  "get_children tv = map fst (tv_items tv)"

definition tv_delete :: "nat \<Rightarrow> treeview \<Rightarrow> treeview" where
  "tv_delete i tv = tv\<lparr>tv_items := filter (\<lambda>(j, r). j \<noteq> i) (tv_items tv)\<rparr>"

definition tv_insert_end :: "row \<Rightarrow> treeview \<Rightarrow> treeview" where
  "tv_insert_end r tv =
     tv\<lparr>tv_items := tv_items tv @ [(tv_next tv, r)], tv_next := Suc (tv_next tv)\<rparr>"

text \<open>The first loop of both functions: \<open>for i in tree.get_children(): tree.delete(i)\<close>.\<close>

definition tv_clear :: "treeview \<Rightarrow> treeview" where
  "tv_clear tv = fold tv_delete (get_children tv) tv"

text \<open>The functions of \<open>os.path\<close> that \<open>update_autorun_list\<close> calls, as given.\<close>

record os_path =
  basename :: "string \<Rightarrow> string"
  dirname :: "string \<Rightarrow> string"
  join :: "string \<Rightarrow> string \<Rightarrow> string"
  splitext :: "string \<Rightarrow> string \<times> string"

text \<open>
  The second loop of \<open>update_autorun_list\<close> (lines 1277 to 1283). \<open>config\<close> is
  \<open>self.lnp.config\<close>, subscripted in every pass; \<open>autorun\<close> is \<open>self.lnp.autorun\<close>.
\<close>

fun autorun_rows ::
  "os_path \<Rightarrow> (string \<rightharpoonup> pyvalue) \<Rightarrow> string list \<Rightarrow> string list \<Rightarrow> treeview \<Rightarrow> treeview \<times> exn option"
where
  "autorun_rows os config autorun [] tv = (tv, None)"
| "autorun_rows os config autorun (p # ps) tv =
     (let exe = join os (basename os (dirname os p)) (basename os p) in
      case config ''hideUtilityPath'' of
        None \<Rightarrow> (tv, Some KeyError)
      | Some hide \<Rightarrow>
          (let exe = (if truthy hide then fst (splitext os (basename os p)) else exe) in
           autorun_rows os config autorun ps
             (tv_insert_end
                \<lparr>row_text = p,
                 row_values = (exe, if p \<in> set autorun then ''Yes'' else ''No'')\<rparr> tv)))"

definition update_autorun_list ::
  "os_path \<Rightarrow> (string \<rightharpoonup> pyvalue) \<Rightarrow> string list \<Rightarrow> string list \<Rightarrow> treeview \<Rightarrow> treeview \<times> exn option"
where
  "update_autorun_list os config autorun progs proglist =
     autorun_rows os config autorun progs (tv_clear proglist)"

text \<open>
  The second loop of \<open>update_hack_list\<close> (lines 1465 to 1467) over the items of the dict
  that \<open>self.lnp.get_hacks()\<close> returns; each hack is itself a dict, and
  \<open>h['enabled']\<close> raises \<open>KeyError\<close> when it has no such field.
\<close>

fun hack_rows :: "(string \<times> (string \<rightharpoonup> pyvalue)) list \<Rightarrow> treeview \<Rightarrow> treeview \<times> exn option" where
  "hack_rows [] tv = (tv, None)"
| "hack_rows ((k, h) # rest) tv =
     (case h ''enabled'' of
        None \<Rightarrow> (tv, Some KeyError)
      | Some v \<Rightarrow>
          hack_rows rest
            (tv_insert_end
               \<lparr>row_text = k, row_values = (k, if truthy v then ''Yes'' else ''No'')\<rparr> tv))"

definition update_hack_list ::
  "(string \<times> (string \<rightharpoonup> pyvalue)) list \<Rightarrow> treeview \<Rightarrow> treeview \<times> exn option"
where
  "update_hack_list hacks hacklist = hack_rows hacks (tv_clear hacklist)"

text \<open>The row each function makes for one item, when the lookups it needs return.\<close>

definition autorun_row :: "os_path \<Rightarrow> pyvalue \<Rightarrow> string list \<Rightarrow> string \<Rightarrow> row" where
  "autorun_row os hide autorun p =
     \<lparr>row_text = p,
      row_values =
        (if truthy hide then fst (splitext os (basename os p))
         else join os (basename os (dirname os p)) (basename os p),
         if p \<in> set autorun then ''Yes'' else ''No'')\<rparr>"

definition hack_row :: "string \<times> (string \<rightharpoonup> pyvalue) \<Rightarrow> row" where
  "hack_row kh =
     \<lparr>row_text = fst kh,
      row_values = (fst kh, if truthy (the (snd kh ''enabled'')) then ''Yes'' else ''No'')\<rparr>"

definition rows_of :: "treeview \<Rightarrow> row list" where
  "rows_of tv = map snd (tv_items tv)"

section \<open>Proofs about the tooltip\<close>

subsection \<open>At most one pending timer\<close>

lemma showtip_frame [simp]:
  "timers (showtip h) = timers h" "tt_event (tip (showtip h)) = tt_event (tip h)"
  "next_timer (showtip h) = next_timer h"
  by (simp_all add: showtip_def Let_def)

lemma hidetip_frame [simp]:
  "timers (hidetip h) = timers h" "tt_event (tip (hidetip h)) = tt_event (tip h)"
  "next_timer (hidetip h) = next_timer h"
  by (simp_all add: hidetip_def Let_def split: option.splits)

lemma settext_frame [simp]:
  "timers (settext txt h) = timers h" "tt_event (tip (settext txt h)) = tt_event (tip h)"
  by (simp_all add: settext_def Let_def)

lemma enter_timers: "one_timer h \<Longrightarrow> timers (enter h) = [next_timer h]"
  by (auto simp: one_timer_def enter_def after_def after_cancel_def Let_def split: option.splits)

lemma enter_event: "tt_event (tip (enter h)) = Some (next_timer h)"
  by (simp add: enter_def after_def after_cancel_def Let_def split: option.splits)

lemma leave_timers: "one_timer h \<Longrightarrow> timers (leave h) = []"
  by (auto simp: one_timer_def leave_def after_cancel_def Let_def split: option.splits)

lemma timer_fires_timers: "one_timer h \<Longrightarrow> timers (timer_fires h) = []"
  by (auto simp: one_timer_def timer_fires_def split: list.splits)

lemma handle_one_timer: "one_timer h \<Longrightarrow> one_timer (handle e h)"
proof (cases e)
  case Enter
  assume "one_timer h"
  then show ?thesis using Enter by (simp add: one_timer_def enter_timers enter_event)
next
  case Leave
  assume "one_timer h"
  then show ?thesis using Leave by (simp add: one_timer_def leave_timers)
next
  case TimerFires
  assume "one_timer h"
  then show ?thesis using TimerFires by (simp add: one_timer_def timer_fires_timers)
next
  case (Motion x y)
  assume "one_timer h"
  then show ?thesis using Motion by (simp add: one_timer_def)
next
  case (SetText s)
  assume "one_timer h"
  then show ?thesis using SetText by (simp add: one_timer_def)
qed

lemma run_one_timer: "one_timer h \<Longrightarrow> one_timer (run es h)"
  by (induction es arbitrary: h) (simp_all add: handle_one_timer)

lemma create_one_timer: "one_timer (create_tooltip txt p)"
  by (simp add: one_timer_def create_tooltip_def)

lemma one_timer_length: "one_timer h \<Longrightarrow> length (timers h) \<le> 1"
  by (auto simp: one_timer_def)


text \<open>
  C8. Whatever events a tooltip fresh from \<open>create_tooltip\<close> has received (pointer enter
  and exit in any order, and also the delay running out, pointer motion and text changes),
  at most one delayed callback is scheduled; a further enter leaves exactly one scheduled,
  the new one, the earlier one having been cancelled; a further exit leaves none.
\<close>

theorem hover_at_most_one_timer:
  "length (timers (run es (create_tooltip txt p))) \<le> 1
   \<and> timers (enter (run es (create_tooltip txt p))) = [next_timer (run es (create_tooltip txt p))]
   \<and> timers (leave (run es (create_tooltip txt p))) = []"
proof -
  have inv: "one_timer (run es (create_tooltip txt p))"
    by (rule run_one_timer [OF create_one_timer])
  show ?thesis
    using one_timer_length [OF inv] enter_timers [OF inv] leave_timers [OF inv] by simp
qed

theorem hover_at_most_one_timer_witness:
  "length (timers (run [Enter, Enter, Enter, Leave] (create_tooltip ''Play the game!'' (0, 0)))) \<le> 1
   \<and> timers (enter (run [Enter, Enter] (create_tooltip ''Play the game!'' (0, 0)))) = [2]
   \<and> timers (leave (run [Enter, Enter] (create_tooltip ''Play the game!'' (0, 0)))) = []"
  using hover_at_most_one_timer [of "[Enter, Enter, Enter, Leave]" "''Play the game!''" "(0, 0)"]
    hover_at_most_one_timer [of "[Enter, Enter]" "''Play the game!''" "(0, 0)"]
  by (simp add: enter_def after_def after_cancel_def create_tooltip_def Let_def)

subsection \<open>Changing the text of a tooltip\<close>

text \<open>
  C9, as the claim states it, fails twice. The tooltip is shown at (26, 26) with the
  pointer at (10, 10); the pointer moves to (50, 60) and the text is changed: the new
  window is at (66, 76), not at the former anchor. And changing the text of a shown
  tooltip to the empty string destroys the window without making a new one.
\<close>

theorem settext_same_anchor_counterexample:
  "tt_tipwindow (tip (run [Enter, TimerFires, Motion 50 60] (create_tooltip ''old'' (10, 10))))
     = Some \<lparr>win_text = ''old'', win_x = 26, win_y = 26\<rparr>
   \<and> tt_tipwindow (tip (run [Enter, TimerFires, Motion 50 60, SetText ''new'']
                           (create_tooltip ''old'' (10, 10))))
     = Some \<lparr>win_text = ''new'', win_x = 66, win_y = 76\<rparr>
   \<and> tt_tipwindow (tip (run [Enter, TimerFires, SetText []] (create_tooltip ''old'' (10, 10))))
     = None
   \<and> destroyed (run [Enter, TimerFires, SetText []] (create_tooltip ''old'' (10, 10))) = 1"
  by (simp add: create_tooltip_def enter_def after_def timer_fires_def showtip_def
        settext_def hidetip_def Let_def)

text \<open>
  C9, amended. \<open>settext\<close> with the text the tooltip already has changes nothing. With a
  different text on an active tooltip: the text is replaced; the window, if there is one,
  is destroyed; unless the new text is empty a new window with the new text is made in
  the same call, 16 pixels right of and below where the pointer is now; no callback is
  scheduled or cancelled; the tooltip stays active.
\<close>

theorem settext_redraw:
  "settext (tt_text (tip h)) h = h
   \<and> (txt \<noteq> tt_text (tip h) \<and> tt_active (tip h) \<longrightarrow>
        tt_text (tip (settext txt h)) = txt
      \<and> tt_active (tip (settext txt h))
      \<and> tt_tipwindow (tip (settext txt h)) =
          (if txt = [] then None
           else Some \<lparr>win_text = txt, win_x = fst (pointer h) + 16, win_y = snd (pointer h) + 16\<rparr>)
      \<and> destroyed (settext txt h) =
          (if tt_tipwindow (tip h) = None then destroyed h else Suc (destroyed h))
      \<and> created (settext txt h) = (if txt = [] then created h else Suc (created h))
      \<and> timers (settext txt h) = timers h
      \<and> next_timer (settext txt h) = next_timer h
      \<and> tt_event (tip (settext txt h)) = tt_event (tip h))"
  by (auto simp: settext_def showtip_def hidetip_def Let_def split: option.splits)

theorem settext_redraw_witness:
  "settext ''old'' (run [Enter, TimerFires, Motion 50 60] (create_tooltip ''old'' (10, 10)))
     = run [Enter, TimerFires, Motion 50 60] (create_tooltip ''old'' (10, 10))
   \<and> ''new'' \<noteq> tt_text (tip (run [Enter, TimerFires, Motion 50 60] (create_tooltip ''old'' (10, 10))))
   \<and> tt_active (tip (run [Enter, TimerFires, Motion 50 60] (create_tooltip ''old'' (10, 10))))
   \<and> tt_tipwindow (tip (settext ''new''
         (run [Enter, TimerFires, Motion 50 60] (create_tooltip ''old'' (10, 10)))))
       = Some \<lparr>win_text = ''new'', win_x = 66, win_y = 76\<rparr>
   \<and> timers (settext ''new''
         (run [Enter, TimerFires, Motion 50 60] (create_tooltip ''old'' (10, 10)))) = []"
  using settext_redraw [of "run [Enter, TimerFires, Motion 50 60] (create_tooltip ''old'' (10, 10))"
      "''new''"]
  by (simp add: create_tooltip_def enter_def after_def timer_fires_def showtip_def Let_def)

section \<open>Proofs about the registry\<close>

lemma py_split_first: "\<exists>fs. py_split c s = takeWhile (\<lambda>x. x \<noteq> c) s # fs"
  by (induction s) auto


lemma validate_number_empty [simp]: "validate_number fl []"
  by (simp add: validate_number_def)

lemma set_control_button:
  "\<not> is_entry c \<Longrightarrow> set_control out v (c, l) =
     (case v of
        PStr s \<Rightarrow> ((c\<lparr>shown := takeWhile (\<lambda>x. x \<noteq> CHR '':'') (shown c) @ '': '' @ s\<rparr>, l), None)
      | _ \<Rightarrow> ((c, l), Some TypeError))"
  using py_split_first [of "CHR '':''" "shown c"]
  by (auto simp: set_control_def split: pyvalue.splits)

lemma entry_delete_all_control: "fst (entry_delete_all out (c, l)) = c\<lparr>shown := []\<rparr>"
  by (simp add: entry_delete_all_def entry_edit_def)

lemma entry_edit_control:
  "fst (entry_edit out new (c, l)) =
     (if validate_key c \<and> \<not> validate_number (float_ok out) new then c else c\<lparr>shown := new\<rparr>)"
  by (simp add: entry_edit_def)

lemma set_control_entry:
  "is_entry c \<Longrightarrow>
   fst (fst (set_control out v (c, l))) =
     (case tk_arg v of
        None \<Rightarrow> c\<lparr>shown := []\<rparr>
      | Some s \<Rightarrow> c\<lparr>shown := (if validate_key c \<and> \<not> validate_number (float_ok out) s then [] else s)\<rparr>)
   \<and> snd (set_control out v (c, l)) = (case tk_arg v of None \<Rightarrow> Some TclError | Some s \<Rightarrow> None)"
proof -
  assume e: "is_entry c"
  obtain d m where dm: "entry_delete_all out (c, l) = (d, m)" by (cases "entry_delete_all out (c, l)")
  have d: "d = c\<lparr>shown := []\<rparr>" using entry_delete_all_control [of out c l] dm by simp
  show ?thesis
    using e by (simp add: set_control_def dm entry_insert_def entry_edit_control d split: option.splits)
qed


lemma set_control_outcome:
  "fst (fst (set_control out v (c, l))) =
     (if is_entry c then
        (case tk_arg v of
           None \<Rightarrow> c\<lparr>shown := []\<rparr>
         | Some s \<Rightarrow>
             c\<lparr>shown := (if validate_key c \<and> \<not> validate_number (float_ok out) s then [] else s)\<rparr>)
      else
        (case v of
           PStr s \<Rightarrow> c\<lparr>shown := takeWhile (\<lambda>x. x \<noteq> CHR '':'') (shown c) @ '': '' @ s\<rparr>
         | _ \<Rightarrow> c))"
  "snd (set_control out v (c, l)) =
     (if is_entry c then (case tk_arg v of None \<Rightarrow> Some TclError | Some s \<Rightarrow> None)
      else (case v of PStr s \<Rightarrow> None | _ \<Rightarrow> Some TypeError))"
  by (cases "is_entry c"; simp add: set_control_entry set_control_button split: pyvalue.splits)+



lemma update_display_pass:
  "update_display out controls key (st, l) =
     (case pass_value (getattr_settings out l key) controls key of
        Inl e \<Rightarrow> ((st, l), Some e)
      | Inr (c, v) \<Rightarrow> write_control out c v (st, l))"
  by (simp add: update_display_def pass_value_def split: sum.splits option.splits binding.splits)

lemma write_control_at:
  "fst (fst (write_control out c v (st, l))) c = fst (fst (set_control out v (st c, l)))"
  "snd (write_control out c v (st, l)) = snd (set_control out v (st c, l))"
  by (simp_all add: write_control_def split: prod.splits)

lemma write_control_other: "w \<noteq> c \<Longrightarrow> fst (fst (write_control out c v (st, l))) w = st w"
  by (simp add: write_control_def split: prod.splits)



lemma update_loop_cons:
  "update_loop out controls (key # keys) sl =
     (if snd (update_display out controls key sl) = None
      then update_loop out controls keys (fst (update_display out controls key sl))
      else update_display out controls key sl)"
  by (cases "update_display out controls key sl") (auto split: option.splits)

lemma looked_up_here: "looked_up out controls key (key # keys) sl = Some (getattr_settings out (snd sl) key)"
  by simp

lemma looked_up_later:
  "k \<noteq> key \<Longrightarrow> snd (update_display out controls k sl) = None \<Longrightarrow>
   looked_up out controls key (k # keys) sl
     = looked_up out controls key keys (fst (update_display out controls k sl))"
  by (cases "update_display out controls k sl") (auto split: option.splits)






lemma pass_value_target:
  "pass_value r controls key = Inr (c, v) \<Longrightarrow>
     \<exists>b. map_of controls key = Some b \<and> target b = c"
  by (auto simp: pass_value_def split: sum.splits option.splits binding.splits if_splits)

lemma update_display_untouched:
  assumes "\<And>b. map_of controls key = Some b \<Longrightarrow> target b \<noteq> w"
  shows "fst (fst (update_display out controls key (st, l))) w = st w"
proof (cases "pass_value (getattr_settings out l key) controls key")
  case (Inl e)
  then show ?thesis by (simp add: update_display_pass)
next
  case (Inr cv)
  obtain c v where cv: "cv = (c, v)" by (cases cv)
  from Inr cv pass_value_target [of "getattr_settings out l key" controls key c v] assms
  have "w \<noteq> c" by auto
  then show ?thesis using Inr cv by (simp add: update_display_pass write_control_other)
qed

lemma update_loop_untouched:
  assumes "\<And>k b. k \<in> set keys \<Longrightarrow> map_of controls k = Some b \<Longrightarrow> target b \<noteq> w"
  shows "fst (fst (update_loop out controls keys sl)) w = fst sl w"
  using assms
proof (induction keys arbitrary: sl)
  case Nil
  show ?case by simp
next
  case (Cons key keys)
  obtain st l where sl: "sl = (st, l)" by (cases sl)
  have a: "fst (fst (update_display out controls key sl)) w = fst sl w"
    unfolding sl fst_conv by (rule update_display_untouched) (rule Cons.prems, simp_all)
  have b: "fst (fst (update_loop out controls keys sl1)) w = fst sl1 w" for sl1
    by (rule Cons.IH) (rule Cons.prems, simp_all)
  show ?case
    by (subst update_loop_cons) (simp add: a b)
qed

lemma update_loop_hit:
  assumes "key \<in> set keys" and "distinct keys"
    and "\<And>k b. k \<in> set keys \<Longrightarrow> k \<noteq> key \<Longrightarrow> map_of controls k = Some b \<Longrightarrow> target b \<noteq> w"
    and "map_of controls key = Some b0" and "target b0 = w"
    and "snd (update_loop out controls keys sl) = None"
  shows "\<exists>r v l1. looked_up out controls key keys sl = Some r
            \<and> pass_value r controls key = Inr (w, v)
            \<and> fst (fst (set_control out v (fst sl w, l1)))
                 = fst (fst (update_loop out controls keys sl)) w
            \<and> snd (set_control out v (fst sl w, l1)) = None"
  using assms(1,2,3,6)
proof (induction keys arbitrary: sl)
  case Nil
  then show ?case by simp
next
  case (Cons k keys)
  obtain st l where sl: "sl = (st, l)" by (cases sl)
  let ?p = "update_display out controls k sl"
  have ok: "snd ?p = None"
    using Cons.prems(4) by (subst (asm) update_loop_cons) (auto split: if_splits)
  then have rest: "update_loop out controls (k # keys) sl = update_loop out controls keys (fst ?p)"
    by (subst update_loop_cons) simp
  show ?case
  proof (cases "k = key")
    case True
    obtain c v where pv: "pass_value (getattr_settings out l key) controls key = Inr (c, v)"
      using ok True
      by (cases "pass_value (getattr_settings out l key) controls key")
         (auto simp: sl update_display_pass)
    have cw: "c = w"
      using pass_value_target [OF pv] assms(4,5) by auto
    have notin: "key \<notin> set keys" using Cons.prems(2) True by simp
    have "fst (fst (update_loop out controls keys (fst ?p))) w = fst (fst ?p) w"
      by (rule update_loop_untouched) (use Cons.prems(3) notin in auto)
    moreover have "fst (fst ?p) w = fst (fst (set_control out v (st w, l)))"
      using pv cw True by (simp add: sl update_display_pass write_control_at)
    moreover have "snd (set_control out v (st w, l)) = None"
      using ok pv cw True by (simp add: sl update_display_pass write_control_at)
    ultimately have w: "fst (fst (set_control out v (fst sl w, l)))
                 = fst (fst (update_loop out controls keys (fst ?p))) w"
      "snd (set_control out v (fst sl w, l)) = None"
      by (simp_all add: sl)
    have lu: "looked_up out controls key (k # keys) sl = Some (getattr_settings out l key)"
      using True by (simp add: sl)
    have pv': "pass_value (getattr_settings out l key) controls key = Inr (w, v)"
      using pv cw by simp
    show ?thesis
      unfolding rest using lu pv' w by blast
  next
    case False
    have same: "fst (fst ?p) w = fst sl w"
      unfolding sl fst_conv
      by (rule update_display_untouched) (use Cons.prems(3) False in auto)
    have IH: "\<exists>r v l1. looked_up out controls key keys (fst ?p) = Some r
            \<and> pass_value r controls key = Inr (w, v)
            \<and> fst (fst (set_control out v (fst (fst ?p) w, l1)))
                 = fst (fst (update_loop out controls keys (fst ?p))) w
            \<and> snd (set_control out v (fst (fst ?p) w, l1)) = None"
      by (rule Cons.IH) (use Cons.prems False rest in auto)
    have lu: "looked_up out controls key (k # keys) sl = looked_up out controls key keys (fst ?p)"
      using looked_up_later [OF False ok] .
    show ?thesis
      unfolding rest lu using IH by (simp only: same)
  qed
qed

lemma shown_after_write:
  assumes "fst (fst (set_control out v (c, l))) = c'" and "snd (set_control out v (c, l)) = None"
  shows "\<exists>s. tk_arg v = Some s
           \<and> (if is_entry c
              then shown c' = (if validate_key c \<and> \<not> validate_number (float_ok out) s then [] else s)
              else v = PStr s
                 \<and> shown c' = takeWhile (\<lambda>x. x \<noteq> CHR '':'') (shown c) @ '': '' @ s)"
proof (cases "is_entry c")
  case True
  from assms True obtain s where s: "tk_arg v = Some s"
    and c': "c' = c\<lparr>shown := (if validate_key c \<and> \<not> validate_number (float_ok out) s then [] else s)\<rparr>"
    by (auto simp: set_control_outcome split: option.splits)
  have "shown c' = (if validate_key c \<and> \<not> validate_number (float_ok out) s then [] else s)"
    by (simp add: c')
  with True s show ?thesis by simp
next
  case False
  from assms False obtain s where s: "v = PStr s"
    and c': "c' = c\<lparr>shown := takeWhile (\<lambda>x. x \<noteq> CHR '':'') (shown c) @ '': '' @ s\<rparr>"
    by (auto simp: set_control_outcome split: pyvalue.splits)
  have "shown c' = takeWhile (\<lambda>x. x \<noteq> CHR '':'') (shown c) @ '': '' @ s"
    by (simp add: c')
  with False s show ?thesis by simp
qed

lemma key_in_registry: "map_of controls key = Some b \<Longrightarrow> key \<in> set (map fst controls)"
  by (metis map_of_eq_None_iff option.distinct(1) set_map)

lemma other_targets_mem:
  "map_of controls k = Some b \<Longrightarrow> k \<noteq> key \<Longrightarrow> target b \<in> set (other_targets key controls)"
  by (force simp: other_targets_def dest: map_of_SomeD)

text \<open>
  C1, amended. Let \<open>key\<close> be registered with a control alone (no function), no other key
  being registered with that control, and let \<open>v\<close> be the value the controller returned
  for it. When \<open>update_displays\<close> returns, an entry shows \<open>v\<close> as Tk writes it (a string
  as it is), or nothing when its validation rejects that text; any other control shows
  its former text up to the first colon, then a colon and a space, then \<open>v\<close>, which is a
  string.
\<close>

theorem update_displays_plain:
  assumes "distinct (map fst controls)"
    and "map_of controls key = Some (Plain w)"
    and "w \<notin> set (other_targets key controls)"
    and "looked_up out controls key (map fst controls) (st, l) = Some (Inr v)"
    and "update_displays out controls (st, l) = ((st', l'), None)"
  shows "\<exists>s. tk_arg v = Some s
           \<and> (if is_entry (st w)
              then shown (st' w)
                   = (if validate_key (st w) \<and> \<not> validate_number (float_ok out) s then [] else s)
              else v = PStr s
                 \<and> shown (st' w) = takeWhile (\<lambda>x. x \<noteq> CHR '':'') (shown (st w)) @ '': '' @ s)"
proof -
  have others: "target b \<noteq> w" if "k \<noteq> key" "map_of controls k = Some b" for k b
    using other_targets_mem [OF that(2,1)] assms(3) by auto
  have "\<exists>r v' l1. looked_up out controls key (map fst controls) (st, l) = Some r
            \<and> pass_value r controls key = Inr (w, v')
            \<and> fst (fst (set_control out v' (fst (st, l) w, l1)))
                 = fst (fst (update_loop out controls (map fst controls) (st, l))) w
            \<and> snd (set_control out v' (fst (st, l) w, l1)) = None"
    by (rule update_loop_hit [where ?b0.0 = "Plain w"])
       (use assms(1,2,5) others key_in_registry [OF assms(2)] in \<open>auto simp: update_displays_def\<close>)
  then obtain v' l1 where pv: "pass_value (Inr v) controls key = Inr (w, v')"
    and sc: "fst (fst (set_control out v' (st w, l1))) = st' w"
            "snd (set_control out v' (st w, l1)) = None"
    using assms(4,5) by (auto simp: update_displays_def)
  have "v' = v" using pv assms(2) by (simp add: pass_value_def)
  with sc have sc': "fst (fst (set_control out v (st w, l1))) = st' w"
    "snd (set_control out v (st w, l1)) = None" by simp_all
  show ?thesis by (rule shown_after_write [OF sc'])
qed

text \<open>
  C2, amended. Let \<open>key\<close> be registered with a control and a function \<open>f\<close>, no other key
  being registered with that control. When \<open>update_displays\<close> returns, \<open>f\<close> was applied
  to the value the controller returned for the key, or to \<open>None\<close> when the lookup raised
  \<open>KeyError\<close>, and returned a value \<open>v\<close>; an entry shows \<open>v\<close> as Tk writes it, or
  nothing when its validation rejects that text; any other control shows its former text
  up to the first colon, then a colon and a space, then \<open>v\<close>, which is a string.
\<close>

theorem update_displays_projected:
  assumes "distinct (map fst controls)"
    and "map_of controls key = Some (WithFunc w f)"
    and "w \<notin> set (other_targets key controls)"
    and "update_displays out controls (st, l) = ((st', l'), None)"
  shows "\<exists>r raw v s. looked_up out controls key (map fst controls) (st, l) = Some r
           \<and> (r = Inr raw \<or> r = Inl KeyError \<and> raw = PNone)
           \<and> f raw = Inr v
           \<and> tk_arg v = Some s
           \<and> (if is_entry (st w)
              then shown (st' w)
                   = (if validate_key (st w) \<and> \<not> validate_number (float_ok out) s then [] else s)
              else v = PStr s
                 \<and> shown (st' w) = takeWhile (\<lambda>x. x \<noteq> CHR '':'') (shown (st w)) @ '': '' @ s)"
proof -
  have others: "target b \<noteq> w" if "k \<noteq> key" "map_of controls k = Some b" for k b
    using other_targets_mem [OF that(2,1)] assms(3) by auto
  have "\<exists>r v l1. looked_up out controls key (map fst controls) (st, l) = Some r
            \<and> pass_value r controls key = Inr (w, v)
            \<and> fst (fst (set_control out v (fst (st, l) w, l1)))
                 = fst (fst (update_loop out controls (map fst controls) (st, l))) w
            \<and> snd (set_control out v (fst (st, l) w, l1)) = None"
    by (rule update_loop_hit [where ?b0.0 = "WithFunc w f"])
       (use assms(1,2,4) others key_in_registry [OF assms(2)] in \<open>auto simp: update_displays_def\<close>)
  then obtain r v l1 where lu: "looked_up out controls key (map fst controls) (st, l) = Some r"
    and pv: "pass_value r controls key = Inr (w, v)"
    and sc: "fst (fst (set_control out v (st w, l1))) = st' w"
            "snd (set_control out v (st w, l1)) = None"
    using assms(4) by (auto simp: update_displays_def)
  from pv assms(2) obtain raw where
    raw: "r = Inr raw \<or> r = Inl KeyError \<and> raw = PNone" "f raw = Inr v"
    by (auto simp: pass_value_def split: sum.splits if_splits)
  from shown_after_write [OF sc] lu raw show ?thesis by blast
qed

subsection \<open>What a control shows after a refresh: examples\<close>

lemmas refresh_eval = update_displays_def update_display_def write_control_def set_control_def
  entry_insert_def entry_delete_all_def entry_edit_def var_trace_def change_entry_def
  validate_number_def keeping_def capping_def stored_def other_targets_def answers_def
  str_int_def str_nat.simps

text \<open>
  C1 as stated fails. The button registered alone under \<open>popcap\<close> has the text
  \<open>Population Cap\<close>; with the setting \<open>'200'\<close> it shows \<open>Population Cap: 200\<close> after
  \<open>update_displays\<close>, not \<open>200\<close>. With the integer 200 the concatenation raises
  \<open>TypeError\<close> and the button keeps its text.
\<close>

theorem refresh_plain_verbatim_counterexample:
  "snd (update_displays keeping [(''popcap'', Plain 0)]
         (\<lambda>i. button ''Population Cap'', [(''popcap'', PStr ''200'')])) = None
   \<and> shown (fst (fst (update_displays keeping [(''popcap'', Plain 0)]
         (\<lambda>i. button ''Population Cap'', [(''popcap'', PStr ''200'')]))) 0)
     = ''Population Cap: 200''
   \<and> snd (update_displays keeping [(''popcap'', Plain 0)]
         (\<lambda>i. button ''Population Cap'', [(''popcap'', PInt 200)])) = Some TypeError
   \<and> shown (fst (fst (update_displays keeping [(''popcap'', Plain 0)]
         (\<lambda>i. button ''Population Cap'', [(''popcap'', PInt 200)]))) 0)
     = ''Population Cap''"
  by (simp add: refresh_eval)

text \<open>The amended C1 at the \<open>popcap\<close> button of a registry that also holds the
  \<open>volume\<close> entry, whose setting is the integer 255: the entry shows \<open>255\<close>, and its
  trace has written that text back to the controller.\<close>

theorem update_displays_plain_witness:
  "distinct (map fst [(''volume'', Plain 0), (''popcap'', Plain 1)])
   \<and> map_of [(''volume'', Plain 0), (''popcap'', Plain 1)] ''popcap'' = Some (Plain 1)
   \<and> 1 \<notin> set (other_targets ''popcap'' [(''volume'', Plain 0), (''popcap'', Plain 1)])
   \<and> looked_up keeping [(''volume'', Plain 0), (''popcap'', Plain 1)] ''popcap''
        (map fst [(''volume'', Plain 0), (''popcap'', Plain 1)])
        (\<lambda>i. if i = 0 then number_entry ''volume'' ''128'' else button ''Population Cap: 100'',
         [(''volume'', PInt 255), (''popcap'', PStr ''200'')])
      = Some (Inr (PStr ''200''))
   \<and> snd (update_displays keeping [(''volume'', Plain 0), (''popcap'', Plain 1)]
        (\<lambda>i. if i = 0 then number_entry ''volume'' ''128'' else button ''Population Cap: 100'',
         [(''volume'', PInt 255), (''popcap'', PStr ''200'')])) = None
   \<and> shown (fst (fst (update_displays keeping [(''volume'', Plain 0), (''popcap'', Plain 1)]
        (\<lambda>i. if i = 0 then number_entry ''volume'' ''128'' else button ''Population Cap: 100'',
         [(''volume'', PInt 255), (''popcap'', PStr ''200'')]))) 1)
     = ''Population Cap: 200''
   \<and> shown (fst (fst (update_displays keeping [(''volume'', Plain 0), (''popcap'', Plain 1)]
        (\<lambda>i. if i = 0 then number_entry ''volume'' ''128'' else button ''Population Cap: 100'',
         [(''volume'', PInt 255), (''popcap'', PStr ''200'')]))) 0)
     = ''255''
   \<and> snd (fst (update_displays keeping [(''volume'', Plain 0), (''popcap'', Plain 1)]
        (\<lambda>i. if i = 0 then number_entry ''volume'' ''128'' else button ''Population Cap: 100'',
         [(''volume'', PInt 255), (''popcap'', PStr ''200'')])))
     = [(''volume'', PStr ''255''), (''volume'', PInt 255), (''popcap'', PStr ''200'')]"
  using update_displays_plain [of "[(''volume'', Plain 0), (''popcap'', Plain 1)]" "''popcap''" 1
      keeping
      "\<lambda>i. if i = 0 then number_entry ''volume'' ''128'' else button ''Population Cap: 100''"
      "[(''volume'', PInt 255), (''popcap'', PStr ''200'')]" "PStr ''200''"
      "fst (fst (update_displays keeping [(''volume'', Plain 0), (''popcap'', Plain 1)]
        (\<lambda>i. if i = 0 then number_entry ''volume'' ''128'' else button ''Population Cap: 100'',
         [(''volume'', PInt 255), (''popcap'', PStr ''200'')])))"
      "snd (fst (update_displays keeping [(''volume'', Plain 0), (''popcap'', Plain 1)]
        (\<lambda>i. if i = 0 then number_entry ''volume'' ''128'' else button ''Population Cap: 100'',
         [(''volume'', PInt 255), (''popcap'', PStr ''200'')])))"]
  by (simp add: refresh_eval)


text \<open>
  C2 as stated fails. The button registered under \<open>autoClose\<close> with a function that
  gives \<open>YES\<close> for a true value shows \<open>Close GUI on launch: YES\<close> after
  \<open>update_displays\<close>, not the function's result \<open>YES\<close>.
\<close>

theorem refresh_projected_counterexample:
  "snd (update_displays keeping
      [(''autoClose'', WithFunc 0 (\<lambda>v. Inr (PStr (if truthy v then ''YES'' else ''NO''))))]
      (\<lambda>i. button ''Close GUI on launch'', [(''autoClose'', PBool True)])) = None
   \<and> shown (fst (fst (update_displays keeping
      [(''autoClose'', WithFunc 0 (\<lambda>v. Inr (PStr (if truthy v then ''YES'' else ''NO''))))]
      (\<lambda>i. button ''Close GUI on launch'', [(''autoClose'', PBool True)]))) 0)
     = ''Close GUI on launch: YES''"
  by (simp add: refresh_eval)

text \<open>The amended C2 at a button whose function turns the setting \<open>False\<close> into
  \<open>NO\<close>, and at a validated entry whose function gives a text that is no number: the
  entry is left empty.\<close>

theorem update_displays_projected_witness:
  "distinct (map fst
      [(''autoClose'', WithFunc 0 (\<lambda>v. Inr (PStr (if truthy v then ''YES'' else ''NO'')))),
       (''volume'', WithFunc 1 (\<lambda>v. Inr (PStr ''loud'')))])
   \<and> 0 \<notin> set (other_targets ''autoClose''
      [(''autoClose'', WithFunc 0 (\<lambda>v. Inr (PStr (if truthy v then ''YES'' else ''NO'')))),
       (''volume'', WithFunc 1 (\<lambda>v. Inr (PStr ''loud'')))])
   \<and> 1 \<notin> set (other_targets ''volume''
      [(''autoClose'', WithFunc 0 (\<lambda>v. Inr (PStr (if truthy v then ''YES'' else ''NO'')))),
       (''volume'', WithFunc 1 (\<lambda>v. Inr (PStr ''loud'')))])
   \<and> snd (update_displays keeping
      [(''autoClose'', WithFunc 0 (\<lambda>v. Inr (PStr (if truthy v then ''YES'' else ''NO'')))),
       (''volume'', WithFunc 1 (\<lambda>v. Inr (PStr ''loud'')))]
      (\<lambda>i. if i = 0 then button ''Close GUI on launch: YES'' else number_entry ''volume'' ''128'',
       [(''autoClose'', PBool False), (''volume'', PStr ''255'')])) = None
   \<and> looked_up keeping
      [(''autoClose'', WithFunc 0 (\<lambda>v. Inr (PStr (if truthy v then ''YES'' else ''NO'')))),
       (''volume'', WithFunc 1 (\<lambda>v. Inr (PStr ''loud'')))]
      ''autoClose'' [''autoClose'', ''volume'']
      (\<lambda>i. if i = 0 then button ''Close GUI on launch: YES'' else number_entry ''volume'' ''128'',
       [(''autoClose'', PBool False), (''volume'', PStr ''255'')])
     = Some (Inr (PBool False))
   \<and> shown (fst (fst (update_displays keeping
      [(''autoClose'', WithFunc 0 (\<lambda>v. Inr (PStr (if truthy v then ''YES'' else ''NO'')))),
       (''volume'', WithFunc 1 (\<lambda>v. Inr (PStr ''loud'')))]
      (\<lambda>i. if i = 0 then button ''Close GUI on launch: YES'' else number_entry ''volume'' ''128'',
       [(''autoClose'', PBool False), (''volume'', PStr ''255'')]))) 0)
     = ''Close GUI on launch: NO''
   \<and> shown (fst (fst (update_displays keeping
      [(''autoClose'', WithFunc 0 (\<lambda>v. Inr (PStr (if truthy v then ''YES'' else ''NO'')))),
       (''volume'', WithFunc 1 (\<lambda>v. Inr (PStr ''loud'')))]
      (\<lambda>i. if i = 0 then button ''Close GUI on launch: YES'' else number_entry ''volume'' ''128'',
       [(''autoClose'', PBool False), (''volume'', PStr ''255'')]))) 1)
     = []"
  using update_displays_projected [of
      "[(''autoClose'', WithFunc 0 (\<lambda>v. Inr (PStr (if truthy v then ''YES'' else ''NO'')))),
        (''volume'', WithFunc 1 (\<lambda>v. Inr (PStr ''loud'')))]"
      "''autoClose''" 0 "\<lambda>v. Inr (PStr (if truthy v then ''YES'' else ''NO''))" keeping
      "\<lambda>i. if i = 0 then button ''Close GUI on launch: YES'' else number_entry ''volume'' ''128''"
      "[(''autoClose'', PBool False), (''volume'', PStr ''255'')]"
      "fst (fst (update_displays keeping
      [(''autoClose'', WithFunc 0 (\<lambda>v. Inr (PStr (if truthy v then ''YES'' else ''NO'')))),
       (''volume'', WithFunc 1 (\<lambda>v. Inr (PStr ''loud'')))]
      (\<lambda>i. if i = 0 then button ''Close GUI on launch: YES'' else number_entry ''volume'' ''128'',
       [(''autoClose'', PBool False), (''volume'', PStr ''255'')])))"
      "snd (fst (update_displays keeping
      [(''autoClose'', WithFunc 0 (\<lambda>v. Inr (PStr (if truthy v then ''YES'' else ''NO'')))),
       (''volume'', WithFunc 1 (\<lambda>v. Inr (PStr ''loud'')))]
      (\<lambda>i. if i = 0 then button ''Close GUI on launch: YES'' else number_entry ''volume'' ''128'',
       [(''autoClose'', PBool False), (''volume'', PStr ''255'')])))"]
   update_displays_projected [of
      "[(''autoClose'', WithFunc 0 (\<lambda>v. Inr (PStr (if truthy v then ''YES'' else ''NO'')))),
        (''volume'', WithFunc 1 (\<lambda>v. Inr (PStr ''loud'')))]"
      "''volume''" 1 "\<lambda>v. Inr (PStr ''loud'')" keeping
      "\<lambda>i. if i = 0 then button ''Close GUI on launch: YES'' else number_entry ''volume'' ''128''"
      "[(''autoClose'', PBool False), (''volume'', PStr ''255'')]"
      "fst (fst (update_displays keeping
      [(''autoClose'', WithFunc 0 (\<lambda>v. Inr (PStr (if truthy v then ''YES'' else ''NO'')))),
       (''volume'', WithFunc 1 (\<lambda>v. Inr (PStr ''loud'')))]
      (\<lambda>i. if i = 0 then button ''Close GUI on launch: YES'' else number_entry ''volume'' ''128'',
       [(''autoClose'', PBool False), (''volume'', PStr ''255'')])))"
      "snd (fst (update_displays keeping
      [(''autoClose'', WithFunc 0 (\<lambda>v. Inr (PStr (if truthy v then ''YES'' else ''NO'')))),
       (''volume'', WithFunc 1 (\<lambda>v. Inr (PStr ''loud'')))]
      (\<lambda>i. if i = 0 then button ''Close GUI on launch: YES'' else number_entry ''volume'' ''128'',
       [(''autoClose'', PBool False), (''volume'', PStr ''255'')])))"]
  by (simp add: refresh_eval)



text \<open>
  C4. The controller raises \<open>KeyError\<close> for \<open>popcap\<close>, registered with a button alone,
  and holds \<open>YES\<close> for \<open>invaders\<close>. The lookup's \<open>KeyError\<close> is caught and the value
  becomes \<open>None\<close>; appending it to the button's text raises \<open>TypeError\<close>, which ends the
  loop: the button of \<open>invaders\<close> keeps its old text. Without \<open>popcap\<close> in the registry
  it is refreshed.
\<close>

theorem update_displays_missing_value_aborts:
  "snd (update_displays keeping [(''popcap'', Plain 0), (''invaders'', Plain 1)]
        (\<lambda>i. if i = 0 then button ''Population Cap'' else button ''Invaders'',
         [(''invaders'', PStr ''YES'')]))
     = Some TypeError
   \<and> shown (fst (fst (update_displays keeping [(''popcap'', Plain 0), (''invaders'', Plain 1)]
        (\<lambda>i. if i = 0 then button ''Population Cap'' else button ''Invaders'',
         [(''invaders'', PStr ''YES'')]))) 1)
     = ''Invaders''
   \<and> shown (fst (fst (update_displays keeping [(''invaders'', Plain 1)]
        (\<lambda>i. if i = 0 then button ''Population Cap'' else button ''Invaders'',
         [(''invaders'', PStr ''YES'')]))) 1)
     = ''Invaders: YES''"
  by (simp add: refresh_eval)

subsection \<open>Registering a key\<close>

lemma register_lookup: "map_of (register key b r) k = (if k = key then Some b else map_of r k)"
  by (induction r) auto

lemma register_keys: "fst ` set (register key b r) = insert key (fst ` set r)"
proof (induction r)
  case Nil
  show ?case by simp
next
  case (Cons p r)
  obtain k b' where p: "p = (k, b')" by (cases p)
  show ?case
  proof (cases "k = key")
    case True
    then show ?thesis using p by simp
  next
    case False
    then show ?thesis using p Cons.IH by (simp add: insert_commute)
  qed
qed

lemma register_distinct: "distinct (map fst r) \<Longrightarrow> distinct (map fst (register key b r))"
proof (induction r)
  case Nil
  show ?case by simp
next
  case (Cons p r)
  obtain k b' where p: "p = (k, b')" by (cases p)
  show ?case
  proof (cases "k = key")
    case True
    then show ?thesis using p Cons.prems by simp
  next
    case False
    then show ?thesis using p Cons by (simp add: register_keys)
  qed
qed

lemma register_length:
  "length (register key b r) = (if key \<in> fst ` set r then length r else Suc (length r))"
proof (induction r)
  case Nil
  show ?case by simp
next
  case (Cons p r)
  obtain k b' where p: "p = (k, b')" by (cases p)
  show ?case using p Cons.IH by (cases "k = key") auto
qed

text \<open>
  C5 as stated fails: registering \<open>popcap\<close> a second time returns the registry with the
  second binding in place of the first; nothing is raised.
\<close>

theorem register_duplicate_counterexample:
  "register ''popcap'' (Plain 1) (register ''popcap'' (Plain 0) []) = [(''popcap'', Plain 1)]"
  by simp

text \<open>
  C5, amended. Registering never fails. Afterwards the key has the new binding, whether or
  not it had one before; every other key has the binding it had; the keys stay distinct;
  and the number of bindings is unchanged when the key was already registered, one more
  otherwise.
\<close>

theorem register_replaces:
  "map_of (register key b r) key = Some b
   \<and> (k \<noteq> key \<longrightarrow> map_of (register key b r) k = map_of r k)
   \<and> (distinct (map fst r) \<longrightarrow> distinct (map fst (register key b r)))
   \<and> length (register key b r) = (if key \<in> fst ` set r then length r else Suc (length r))"
  by (simp add: register_lookup register_distinct register_length)

theorem register_replaces_witness:
  "''invaders'' \<noteq> ''popcap''
   \<and> distinct (map fst [(''popcap'', Plain 0), (''invaders'', Plain 1)])
   \<and> ''popcap'' \<in> fst ` set [(''popcap'', Plain 0), (''invaders'', Plain 1)]
   \<and> map_of (register ''popcap'' (Plain 5) [(''popcap'', Plain 0), (''invaders'', Plain 1)]) ''popcap''
     = Some (Plain 5)
   \<and> map_of (register ''popcap'' (Plain 5) [(''popcap'', Plain 0), (''invaders'', Plain 1)]) ''invaders''
     = Some (Plain 1)
   \<and> distinct (map fst (register ''popcap'' (Plain 5) [(''popcap'', Plain 0), (''invaders'', Plain 1)]))
   \<and> length (register ''popcap'' (Plain 5) [(''popcap'', Plain 0), (''invaders'', Plain 1)]) = 2"
  using register_replaces [of "''popcap''" "Plain 5" "[(''popcap'', Plain 0), (''invaders'', Plain 1)]"
      "''invaders''"]
  by simp

subsection \<open>An emptied entry\<close>

text \<open>
  C10. When the content of the entry is the empty string, \<open>change_entry\<close> returns without
  calling \<open>set_option\<close>: the controller's state is what it was, for every key and every
  behaviour of \<open>set_option\<close>.
\<close>

theorem change_entry_empty: "change_entry lnp_set_option key [] lnp = Inr lnp"
  by (simp add: change_entry_def)

theorem change_entry_empty_witness:
  "change_entry (\<lambda>k v lnp. Inr ((k, v) # lnp)) ''volume'' [] [(''volume'', ''255'')]
     = Inr [(''volume'', ''255'')]
   \<and> change_entry (\<lambda>k v lnp. Inr ((k, v) # lnp)) ''volume'' ''7'' [(''volume'', ''255'')]
     = Inr [(''volume'', ''7''), (''volume'', ''255'')]"
  using change_entry_empty [of "\<lambda>k v lnp. Inr ((k, v) # lnp)" "''volume''" "[(''volume'', ''255'')]"]
  by (simp add: change_entry_def)


section \<open>Proofs about the list displays\<close>

lemma tv_delete_fields:
  "tv_items (tv_delete i tv) = filter (\<lambda>p. fst p \<noteq> i) (tv_items tv)"
  "tv_next (tv_delete i tv) = tv_next tv"
  by (simp_all add: tv_delete_def case_prod_unfold)

lemma fold_tv_delete:
  "tv_items (fold tv_delete ids tv) = filter (\<lambda>p. fst p \<notin> set ids) (tv_items tv)
   \<and> tv_next (fold tv_delete ids tv) = tv_next tv"
proof (induction ids arbitrary: tv)
  case Nil
  show ?case by simp
next
  case (Cons i ids)
  have "filter (\<lambda>p. fst p \<notin> set ids) (filter (\<lambda>p. fst p \<noteq> i) xs)
        = filter (\<lambda>p. fst p \<notin> set (i # ids)) xs" for xs :: "(nat \<times> row) list"
    by (induction xs) auto
  then show ?case
    using Cons.IH [of "tv_delete i tv"] by (simp only: fold_simps tv_delete_fields) 
qed

lemma tv_clear_empty [simp]: "tv_items (tv_clear tv) = []" "tv_next (tv_clear tv) = tv_next tv"
  by (simp_all add: tv_clear_def fold_tv_delete get_children_def filter_empty_conv)

lemma rows_of_insert [simp]: "rows_of (tv_insert_end r tv) = rows_of tv @ [r]"
  by (simp add: rows_of_def tv_insert_end_def)

lemma autorun_rows_ok:
  "config ''hideUtilityPath'' = Some hide \<Longrightarrow>
   snd (autorun_rows os config autorun ps tv) = None
   \<and> rows_of (fst (autorun_rows os config autorun ps tv))
       = rows_of tv @ map (autorun_row os hide autorun) ps"
  by (induction ps arbitrary: tv) (simp_all add: Let_def autorun_row_def)

lemma hack_rows_ok:
  "list_all (\<lambda>kh. snd kh ''enabled'' \<noteq> None) hacks \<Longrightarrow>
   snd (hack_rows hacks tv) = None
   \<and> rows_of (fst (hack_rows hacks tv)) = rows_of tv @ map hack_row hacks"
proof (induction hacks arbitrary: tv)
  case Nil
  show ?case by simp
next
  case (Cons kh hacks)
  obtain k h where kh: "kh = (k, h)" by (cases kh)
  from Cons.prems kh obtain v where v: "h ''enabled'' = Some v" by auto
  have rest: "list_all (\<lambda>kh. snd kh ''enabled'' \<noteq> None) hacks" using Cons.prems by simp
  show ?case
    using Cons.IH [OF rest] by (simp add: kh v hack_row_def)
qed

lemma hack_rows_stop:
  assumes "list_all (\<lambda>kh. snd kh ''enabled'' \<noteq> None) pre" and "h ''enabled'' = None"
  shows "snd (hack_rows (pre @ (k, h) # post) tv) = Some KeyError
   \<and> rows_of (fst (hack_rows (pre @ (k, h) # post) tv)) = rows_of tv @ map hack_row pre"
  using assms(1)
proof (induction pre arbitrary: tv)
  case Nil
  show ?case using assms(2) by simp
next
  case (Cons kh pre)
  obtain k' h' where kh: "kh = (k', h')" by (cases kh)
  from Cons.prems kh obtain v where v: "h' ''enabled'' = Some v" by auto
  have rest: "list_all (\<lambda>kh. snd kh ''enabled'' \<noteq> None) pre" using Cons.prems by simp
  show ?case
    using Cons.IH [OF rest] by (simp add: kh v hack_row_def)
qed

lemma rows_of_clear [simp]: "rows_of (tv_clear tv) = []"
  by (simp add: rows_of_def)

text \<open>
  C6, amended. Whatever rows the tree held before: when the lookup of \<open>hideUtilityPath\<close>
  in the configuration returns, \<open>update_autorun_list\<close> returns and leaves exactly one row
  per program, in the order of the programs, duplicates included, and none of the old
  rows; for no programs it leaves the tree empty, whether or not that lookup returns.
  When every hack has its \<open>enabled\<close> field, \<open>update_hack_list\<close> returns and leaves
  exactly one row per hack, in the order of the hacks, and none of the old rows.
\<close>

theorem list_rebuild_rows:
  "(config ''hideUtilityPath'' = Some hide \<longrightarrow>
      snd (update_autorun_list os config autorun progs proglist) = None
    \<and> rows_of (fst (update_autorun_list os config autorun progs proglist))
        = map (autorun_row os hide autorun) progs
    \<and> length (rows_of (fst (update_autorun_list os config autorun progs proglist))) = length progs
    \<and> map row_text (rows_of (fst (update_autorun_list os config autorun progs proglist))) = progs)
   \<and> update_autorun_list os config autorun [] proglist = (tv_clear proglist, None)
   \<and> (list_all (\<lambda>kh. snd kh ''enabled'' \<noteq> None) hacks \<longrightarrow>
      snd (update_hack_list hacks hacklist) = None
    \<and> rows_of (fst (update_hack_list hacks hacklist)) = map hack_row hacks
    \<and> length (rows_of (fst (update_hack_list hacks hacklist))) = length hacks
    \<and> map row_text (rows_of (fst (update_hack_list hacks hacklist))) = map fst hacks)"
proof (intro conjI impI)
  assume c: "config ''hideUtilityPath'' = Some hide"
  note a = autorun_rows_ok [where config = config and hide = hide and os = os and autorun = autorun
      and ps = progs and tv = "tv_clear proglist", OF c]
  show "snd (update_autorun_list os config autorun progs proglist) = None"
    using a by (simp add: update_autorun_list_def)
  show r: "rows_of (fst (update_autorun_list os config autorun progs proglist))
        = map (autorun_row os hide autorun) progs"
    using a by (simp add: update_autorun_list_def)
  show "length (rows_of (fst (update_autorun_list os config autorun progs proglist))) = length progs"
    by (simp add: r)
  show "map row_text (rows_of (fst (update_autorun_list os config autorun progs proglist))) = progs"
    by (simp add: r autorun_row_def comp_def)
next
  show "update_autorun_list os config autorun [] proglist = (tv_clear proglist, None)"
    by (simp add: update_autorun_list_def)
next
  assume h: "list_all (\<lambda>kh. snd kh ''enabled'' \<noteq> None) hacks"
  note a = hack_rows_ok [where hacks = hacks and tv = "tv_clear hacklist", OF h]
  show "snd (update_hack_list hacks hacklist) = None"
    using a by (simp add: update_hack_list_def)
  show r: "rows_of (fst (update_hack_list hacks hacklist)) = map hack_row hacks"
    using a by (simp add: update_hack_list_def)
  show "length (rows_of (fst (update_hack_list hacks hacklist))) = length hacks"
    by (simp add: r)
  show "map row_text (rows_of (fst (update_hack_list hacks hacklist))) = map fst hacks"
    by (simp add: r hack_row_def comp_def)
qed

text \<open>
  C7, amended. When the status of a hack cannot be looked up (it has no \<open>enabled\<close>
  field) and every hack before it has one, \<open>update_hack_list\<close> ends with \<open>KeyError\<close> at
  that hack: the old rows are gone, the hacks before it have their rows, neither it nor
  any later hack has a row, and the status of every row is \<open>Yes\<close> or \<open>No\<close>.
\<close>

theorem hack_list_stops_at_failure:
  assumes "list_all (\<lambda>kh. snd kh ''enabled'' \<noteq> None) pre" and "h ''enabled'' = None"
  shows "snd (update_hack_list (pre @ (k, h) # post) hacklist) = Some KeyError
   \<and> rows_of (fst (update_hack_list (pre @ (k, h) # post) hacklist)) = map hack_row pre
   \<and> list_all (\<lambda>r. snd (row_values r) = ''Yes'' \<or> snd (row_values r) = ''No'')
         (rows_of (fst (update_hack_list (pre @ (k, h) # post) hacklist)))"
proof -
  note a = hack_rows_stop [where pre = pre and h = h and k = k and post = post
      and tv = "tv_clear hacklist", OF assms]
  have r: "rows_of (fst (update_hack_list (pre @ (k, h) # post) hacklist)) = map hack_row pre"
    using a by (simp add: update_hack_list_def)
  show ?thesis
    using a by (auto simp: r update_hack_list_def hack_row_def list_all_iff)
qed


text \<open>
  C6 as stated fails: with a configuration that has no \<open>hideUtilityPath\<close>,
  \<open>update_autorun_list\<close> raises \<open>KeyError\<close> in its first pass and leaves no row for two
  programs; \<open>update_hack_list\<close> leaves no row for one hack that has no \<open>enabled\<close> field.
\<close>

theorem list_rebuild_counterexample:
  "snd (update_autorun_list
       \<lparr>basename = (\<lambda>p. p), dirname = (\<lambda>p. []), join = (\<lambda>a b. a @ ''/'' @ b),
        splitext = (\<lambda>p. (p, []))\<rparr>
       Map.empty [] [''a.exe'', ''b.exe''] \<lparr>tv_items = [], tv_next = 0\<rparr>) = Some KeyError
   \<and> rows_of (fst (update_autorun_list
       \<lparr>basename = (\<lambda>p. p), dirname = (\<lambda>p. []), join = (\<lambda>a b. a @ ''/'' @ b),
        splitext = (\<lambda>p. (p, []))\<rparr>
       Map.empty [] [''a.exe'', ''b.exe''] \<lparr>tv_items = [], tv_next = 0\<rparr>)) = []
   \<and> snd (update_hack_list [(''reveal'', [''tooltip'' \<mapsto> PStr ''Shows the map''])]
       \<lparr>tv_items = [], tv_next = 0\<rparr>) = Some KeyError
   \<and> rows_of (fst (update_hack_list [(''reveal'', [''tooltip'' \<mapsto> PStr ''Shows the map''])]
       \<lparr>tv_items = [], tv_next = 0\<rparr>)) = []"
  by (simp add: update_autorun_list_def update_hack_list_def tv_clear_def get_children_def
        rows_of_def)

theorem list_rebuild_rows_witness:
  "[''hideUtilityPath'' \<mapsto> PBool True] ''hideUtilityPath'' = Some (PBool True)
   \<and> list_all (\<lambda>kh. snd kh ''enabled'' \<noteq> None)
        [(''a.txt'', [''enabled'' \<mapsto> PBool True]), (''b.txt'', [''enabled'' \<mapsto> PBool False])]
   \<and> rows_of (fst (update_autorun_list
       \<lparr>basename = (\<lambda>p. p), dirname = (\<lambda>p. []), join = (\<lambda>a b. a @ ''/'' @ b),
        splitext = (\<lambda>p. (p, []))\<rparr>
       [''hideUtilityPath'' \<mapsto> PBool True] [''b.exe''] [''a.exe'', ''b.exe'', ''a.exe'']
       \<lparr>tv_items = [(0, \<lparr>row_text = ''old.exe'', row_values = (''old.exe'', ''Yes'')\<rparr>)],
        tv_next = 1\<rparr>))
     = [\<lparr>row_text = ''a.exe'', row_values = (''a.exe'', ''No'')\<rparr>,
        \<lparr>row_text = ''b.exe'', row_values = (''b.exe'', ''Yes'')\<rparr>,
        \<lparr>row_text = ''a.exe'', row_values = (''a.exe'', ''No'')\<rparr>]
   \<and> rows_of (fst (update_hack_list
       [(''a.txt'', [''enabled'' \<mapsto> PBool True]), (''b.txt'', [''enabled'' \<mapsto> PBool False])]
       \<lparr>tv_items = [(4, \<lparr>row_text = ''old'', row_values = (''old'', ''No'')\<rparr>)], tv_next = 5\<rparr>))
     = [\<lparr>row_text = ''a.txt'', row_values = (''a.txt'', ''Yes'')\<rparr>,
        \<lparr>row_text = ''b.txt'', row_values = (''b.txt'', ''No'')\<rparr>]"
  using list_rebuild_rows [where config = "[''hideUtilityPath'' \<mapsto> PBool True]"
      and hide = "PBool True"
      and os = "\<lparr>basename = (\<lambda>p. p), dirname = (\<lambda>p. []), join = (\<lambda>a b. a @ ''/'' @ b),
        splitext = (\<lambda>p. (p, []))\<rparr>"
      and autorun = "[''b.exe'']" and progs = "[''a.exe'', ''b.exe'', ''a.exe'']"
      and proglist = "\<lparr>tv_items = [(0, \<lparr>row_text = ''old.exe'', row_values = (''old.exe'', ''Yes'')\<rparr>)],
        tv_next = 1\<rparr>"
      and hacks = "[(''a.txt'', [''enabled'' \<mapsto> PBool True]), (''b.txt'', [''enabled'' \<mapsto> PBool False])]"
      and hacklist = "\<lparr>tv_items = [(4, \<lparr>row_text = ''old'', row_values = (''old'', ''No'')\<rparr>)], tv_next = 5\<rparr>"]
  by (simp add: autorun_row_def hack_row_def)

text \<open>
  C7 as stated fails: \<open>b.txt\<close> has no \<open>enabled\<close> field; the function raises \<open>KeyError\<close>
  and leaves the row of \<open>a.txt\<close> only, none for \<open>b.txt\<close> and none for \<open>c.txt\<close>.
\<close>

theorem status_sentinel_counterexample:
  "snd (update_hack_list
       [(''a.txt'', [''enabled'' \<mapsto> PBool True]), (''b.txt'', Map.empty),
        (''c.txt'', [''enabled'' \<mapsto> PBool False])]
       \<lparr>tv_items = [], tv_next = 0\<rparr>) = Some KeyError
   \<and> rows_of (fst (update_hack_list
       [(''a.txt'', [''enabled'' \<mapsto> PBool True]), (''b.txt'', Map.empty),
        (''c.txt'', [''enabled'' \<mapsto> PBool False])]
       \<lparr>tv_items = [], tv_next = 0\<rparr>))
     = [\<lparr>row_text = ''a.txt'', row_values = (''a.txt'', ''Yes'')\<rparr>]"
  by (simp add: update_hack_list_def tv_clear_def get_children_def rows_of_def tv_insert_end_def)

theorem hack_list_stops_at_failure_witness:
  "list_all (\<lambda>kh. snd kh ''enabled'' \<noteq> None) [(''a.txt'', [''enabled'' \<mapsto> PInt 1])]
   \<and> [''tooltip'' \<mapsto> PStr ''x''] ''enabled'' = None
   \<and> snd (update_hack_list
       ([(''a.txt'', [''enabled'' \<mapsto> PInt 1])] @ (''b.txt'', [''tooltip'' \<mapsto> PStr ''x'']) # [])
       \<lparr>tv_items = [(0, \<lparr>row_text = ''old'', row_values = (''old'', ''No'')\<rparr>)], tv_next = 1\<rparr>)
     = Some KeyError
   \<and> rows_of (fst (update_hack_list
       ([(''a.txt'', [''enabled'' \<mapsto> PInt 1])] @ (''b.txt'', [''tooltip'' \<mapsto> PStr ''x'']) # [])
       \<lparr>tv_items = [(0, \<lparr>row_text = ''old'', row_values = (''old'', ''No'')\<rparr>)], tv_next = 1\<rparr>))
     = [\<lparr>row_text = ''a.txt'', row_values = (''a.txt'', ''Yes'')\<rparr>]"
  using hack_list_stops_at_failure [where pre = "[(''a.txt'', [''enabled'' \<mapsto> PInt 1])]"
      and h = "[''tooltip'' \<mapsto> PStr ''x'']" and k = "''b.txt''" and post = "[]"
      and hacklist = "\<lparr>tv_items = [(0, \<lparr>row_text = ''old'', row_values = (''old'', ''No'')\<rparr>)], tv_next = 1\<rparr>"]
  by (simp add: hack_row_def)

end
